theory Spec2Isabelle
  imports Complex_Main
begin

section \<open>Lowest-point background subtraction for Raman spectra\<close>

text \<open>
  A shallow embedding of \<^verbatim>\<open>remove_fluo_spectra_lowest_point\<close> of
  \<^verbatim>\<open>vodinhprocessor.py\<close>. The arrays of the function live in an explicit store, so
  that views, copies and the in-place write \<^verbatim>\<open>bg[i] = lowest_intensity\<close> are what
  they are in the source; every \<^verbatim>\<open>raise\<close> is a value of a sum type.
\<close>

subsection \<open>Floating-point values\<close>

text \<open>
  An array element is a finite value, one of the two infinities, or NaN. Arithmetic
  on finite values is exact in the operations below (the rounding and the overflow of
  the 64-bit format are added in the rounded arithmetic further down), and the two
  signed zeros are one value; the special values follow the IEEE 754 rules that numpy
  applies.
\<close>

datatype pyfloat = Val rat | PInf | NInf | NaN

fun fl_neg :: "pyfloat \<Rightarrow> pyfloat" where
  "fl_neg (Val a) = Val (- a)"
| "fl_neg PInf = NInf"
| "fl_neg NInf = PInf"
| "fl_neg NaN = NaN"

fun fl_add :: "pyfloat \<Rightarrow> pyfloat \<Rightarrow> pyfloat" where
  "fl_add (Val a) (Val b) = Val (a + b)"
| "fl_add (Val a) PInf = PInf"
| "fl_add (Val a) NInf = NInf"
| "fl_add PInf (Val b) = PInf"
| "fl_add PInf PInf = PInf"
| "fl_add PInf NInf = NaN"
| "fl_add NInf (Val b) = NInf"
| "fl_add NInf NInf = NInf"
| "fl_add NInf PInf = NaN"
| "fl_add NaN y = NaN"
| "fl_add x NaN = NaN"

definition fl_sub :: "pyfloat \<Rightarrow> pyfloat \<Rightarrow> pyfloat" where
  "fl_sub x y = fl_add x (fl_neg y)"

fun fl_mul :: "pyfloat \<Rightarrow> pyfloat \<Rightarrow> pyfloat" where
  "fl_mul (Val a) (Val b) = Val (a * b)"
| "fl_mul (Val a) PInf = (if a = 0 then NaN else if 0 < a then PInf else NInf)"
| "fl_mul (Val a) NInf = (if a = 0 then NaN else if 0 < a then NInf else PInf)"
| "fl_mul PInf (Val b) = (if b = 0 then NaN else if 0 < b then PInf else NInf)"
| "fl_mul NInf (Val b) = (if b = 0 then NaN else if 0 < b then NInf else PInf)"
| "fl_mul PInf PInf = PInf"
| "fl_mul PInf NInf = NInf"
| "fl_mul NInf PInf = NInf"
| "fl_mul NInf NInf = PInf"
| "fl_mul NaN y = NaN"
| "fl_mul x NaN = NaN"

text \<open>The comparison \<^verbatim>\<open><\<close>: false whenever an operand is NaN.\<close>

fun fl_less :: "pyfloat \<Rightarrow> pyfloat \<Rightarrow> bool" where
  "fl_less (Val a) (Val b) = (a < b)"
| "fl_less (Val a) PInf = True"
| "fl_less NInf (Val b) = True"
| "fl_less NInf PInf = True"
| "fl_less x y = False"

fun is_finite :: "pyfloat \<Rightarrow> bool" where
  "is_finite (Val a) = True"
| "is_finite x = False"

subsection \<open>Errors and Python integers\<close>

datatype error =
    ValueError string
  | OverflowError
  | IndexError
  | ZeroDivisionError

definition InvalidShape :: error where
  "InvalidShape = ValueError ''input_spectrum must be an (N,2) array: [wavenumber, intensity].''"

definition InvalidParameter_too_small :: error where
  "InvalidParameter_too_small = ValueError ''int_width must be >= 2.''"

definition InvalidParameter_odd :: error where
  "InvalidParameter_odd = ValueError ''int_width must be an even integer.''"

text \<open>
  The window width arrives as a Python number. \<^verbatim>\<open>int(v)\<close> leaves an integer as it is,
  truncates a finite float towards zero and raises on NaN and on an infinity.
\<close>

datatype pynum = PyInt int | PyFloat pyfloat

fun py_int :: "pynum \<Rightarrow> error + int" where
  "py_int (PyInt n) = Inr n"
| "py_int (PyFloat (Val a)) = Inr (if 0 \<le> a then \<lfloor>a\<rfloor> else \<lceil>a\<rceil>)"
| "py_int (PyFloat NaN) = Inl (ValueError ''cannot convert float NaN to integer'')"
| "py_int (PyFloat x) = Inl OverflowError"

text \<open>\<^verbatim>\<open>range(a, b)\<close>: the integers from \<open>a\<close> up to \<open>b - 1\<close>, none when \<open>b \<le> a\<close>.\<close>

definition py_range :: "int \<Rightarrow> int \<Rightarrow> int list" where
  "py_range a b = [a..b - 1]"

text \<open>\<^verbatim>\<open>a / b\<close> on Python integers: true division, raising on a zero divisor.\<close>

definition py_truediv :: "int \<Rightarrow> int \<Rightarrow> error + pyfloat" where
  "py_truediv a b = (if b = 0 then Inl ZeroDivisionError else Inr (Val (of_int a / of_int b)))"

subsection \<open>Arrays and the store\<close>

text \<open>
  A numpy array is its shape and its elements in row-major order. The store is the
  list of the arrays allocated so far; an address is a position in it. The elements
  are floating-point values: the arrays are float64 arrays, as the table that
  \<^verbatim>\<open>np.loadtxt\<close> returns is. An array of another dtype is not a value of this type
  (a table of Python integers becomes an int64 array, and with smoothing off line 50
  then stores the minimum truncated to an integer).
\<close>

record ndarray =
  shape :: "nat list"
  data :: "pyfloat list"

definition wf_ndarray :: "ndarray \<Rightarrow> bool" where
  "wf_ndarray a = (length (data a) = prod_list (shape a))"

definition ndim :: "ndarray \<Rightarrow> nat" where
  "ndim a = length (shape a)"

definition array1 :: "pyfloat list \<Rightarrow> ndarray" where
  "array1 xs = \<lparr>shape = [length xs], data = xs\<rparr>"

text \<open>\<^verbatim>\<open>len(a)\<close> of a one-dimensional array.\<close>

definition len :: "ndarray \<Rightarrow> nat" where
  "len a = length (data a)"

text \<open>The elements of \<^verbatim>\<open>a[:, c]\<close> of a two-dimensional array.\<close>

definition column :: "ndarray \<Rightarrow> nat \<Rightarrow> pyfloat list" where
  "column a c = map (\<lambda>r. data a ! (r * (shape a ! 1) + c)) [0..<shape a ! 0]"

type_synonym addr = nat
type_synonym heap = "ndarray list"

definition alloc :: "heap \<Rightarrow> ndarray \<Rightarrow> addr \<times> heap" where
  "alloc h a = (length h, h @ [a])"

text \<open>
  \<^verbatim>\<open>a[i]\<close> on a one-dimensional array: an index from \<open>-n\<close> to \<open>-1\<close> counts from the
  end, any other index outside \<open>0..n-1\<close> raises IndexError.
\<close>

definition nd_index :: "nat \<Rightarrow> int \<Rightarrow> error + nat" where
  "nd_index n i =
     (if 0 \<le> i \<and> i < int n then Inr (nat i)
      else if - int n \<le> i \<and> i < 0 then Inr (nat (int n + i))
      else Inl IndexError)"

definition nd_get :: "heap \<Rightarrow> addr \<Rightarrow> int \<Rightarrow> error + pyfloat" where
  "nd_get h p i =
     (case nd_index (len (h ! p)) i of
        Inl e \<Rightarrow> Inl e
      | Inr k \<Rightarrow> Inr (data (h ! p) ! k))"

definition nd_set :: "heap \<Rightarrow> addr \<Rightarrow> int \<Rightarrow> pyfloat \<Rightarrow> error + heap" where
  "nd_set h p i v =
     (case nd_index (len (h ! p)) i of
        Inl e \<Rightarrow> Inl e
      | Inr k \<Rightarrow> Inr (h[p := (h ! p)\<lparr>data := (data (h ! p))[k := v]\<rparr>]))"

text \<open>
  \<^verbatim>\<open>np.column_stack((x, clean_y))\<close>, where \<open>x\<close> is the view \<^verbatim>\<open>input_spectrum[:, 0]\<close>:
  its elements are read from the input array as it is in the store at that moment.
  Columns of different lengths raise.
\<close>

definition column_stack :: "heap \<Rightarrow> addr \<times> nat \<Rightarrow> addr \<Rightarrow> (error + addr) \<times> heap" where
  "column_stack h x clean_y =
     (let xs = column (h ! fst x) (snd x); cs = data (h ! clean_y)
      in if length xs \<noteq> length cs
         then (Inl (ValueError ''all the input array dimensions except for the concatenation axis must match exactly''), h)
         else (let (r, h') = alloc h \<lparr>shape = [length xs, 2],
                                        data = concat (map (\<lambda>(a, b). [a, b]) (zip xs cs))\<rparr>
               in (Inr r, h')))"

subsection \<open>The function\<close>

text \<open>Lines 43 to 47: one candidate, the reads in the order of the source.\<close>

definition temp_intensity :: "heap \<Rightarrow> addr \<Rightarrow> int \<Rightarrow> int \<Rightarrow> int \<Rightarrow> error + pyfloat" where
  "temp_intensity h preprocessed_y i j k =
     (case nd_get h preprocessed_y (i + k) of Inl e \<Rightarrow> Inl e | Inr a \<Rightarrow>
      case nd_get h preprocessed_y (i - j) of Inl e \<Rightarrow> Inl e | Inr b \<Rightarrow>
      case py_truediv j (k + j) of Inl e \<Rightarrow> Inl e | Inr q \<Rightarrow>
      case nd_get h preprocessed_y (i - j) of Inl e \<Rightarrow> Inl e | Inr c \<Rightarrow>
        Inr (fl_add (fl_mul (fl_sub a b) q) c))"

text \<open>Lines 42 to 49: the loop over \<open>k\<close>, carrying \<^verbatim>\<open>lowest_intensity\<close>.\<close>

fun loop_k :: "heap \<Rightarrow> addr \<Rightarrow> int \<Rightarrow> int \<Rightarrow> int list \<Rightarrow> pyfloat \<Rightarrow> error + pyfloat" where
  "loop_k h preprocessed_y i j [] lowest_intensity = Inr lowest_intensity"
| "loop_k h preprocessed_y i j (k # ks) lowest_intensity =
     (case temp_intensity h preprocessed_y i j k of
        Inl e \<Rightarrow> Inl e
      | Inr t \<Rightarrow> loop_k h preprocessed_y i j ks
                  (if fl_less t lowest_intensity then t else lowest_intensity))"

text \<open>Lines 41 to 49: the loop over \<open>j\<close>.\<close>

fun loop_j :: "heap \<Rightarrow> addr \<Rightarrow> int \<Rightarrow> int \<Rightarrow> int list \<Rightarrow> pyfloat \<Rightarrow> error + pyfloat" where
  "loop_j h preprocessed_y i half_width [] lowest_intensity = Inr lowest_intensity"
| "loop_j h preprocessed_y i half_width (j # js) lowest_intensity =
     (case loop_k h preprocessed_y i j (py_range 1 (half_width + 1)) lowest_intensity of
        Inl e \<Rightarrow> Inl e
      | Inr l \<Rightarrow> loop_j h preprocessed_y i half_width js l)"

text \<open>
  Lines 39 to 50: the loop over \<open>i\<close>, writing \<^verbatim>\<open>bg[i]\<close> in the store. An exception
  leaves the store as it is at that moment.
\<close>

fun loop_i :: "addr \<Rightarrow> addr \<Rightarrow> int \<Rightarrow> int list \<Rightarrow> heap \<Rightarrow> error option \<times> heap" where
  "loop_i preprocessed_y bg half_width [] h = (None, h)"
| "loop_i preprocessed_y bg half_width (i # is) h =
     (case loop_j h preprocessed_y i half_width (py_range 1 (half_width + 1)) PInf of
        Inl e \<Rightarrow> (Some e, h)
      | Inr lowest_intensity \<Rightarrow>
          (case nd_set h bg i lowest_intensity of
             Inl e \<Rightarrow> (Some e, h)
           | Inr h' \<Rightarrow> loop_i preprocessed_y bg half_width is h'))"

text \<open>
  Lines 13 to 54. \<open>savgol_filter\<close> stands for
  \<^verbatim>\<open>savgol_filter(y, window_length=5, polyorder=1)\<close> of scipy, which is not part of the
  repository: it reads the elements of \<open>y\<close> and returns a new array, or raises. The
  input is an array already in the store, so \<^verbatim>\<open>np.asarray\<close> returns it as it is.
  In the shape test the right operand of \<^verbatim>\<open>or\<close> matters only when the left one is
  false, that is when the shape has two entries.
\<close>

definition remove_fluo_spectra_lowest_point ::
  "(pyfloat list \<Rightarrow> error + pyfloat list) \<Rightarrow> addr \<Rightarrow> pynum \<Rightarrow> bool \<Rightarrow> heap
     \<Rightarrow> (error + addr) \<times> heap" where
  "remove_fluo_spectra_lowest_point savgol_filter input_spectrum int_width need_to_be_smoothed h =
     (if ndim (h ! input_spectrum) \<noteq> 2 \<or> shape (h ! input_spectrum) ! 1 \<noteq> 2
      then (Inl InvalidShape, h)
      else case py_int int_width of
        Inl e \<Rightarrow> (Inl e, h)
      | Inr w \<Rightarrow>
          if w < 2 then (Inl InvalidParameter_too_small, h)
          else if w mod 2 \<noteq> 0 then (Inl InvalidParameter_odd, h)
          else
            let x = (input_spectrum, 0::nat);
                (y, h1) = alloc h (array1 (column (h ! input_spectrum) 1));
                (y_copy, h2) = alloc h1 (h1 ! y)
            in case (if need_to_be_smoothed
                     then (case savgol_filter (data (h2 ! y)) of
                             Inl e \<Rightarrow> Inl e
                           | Inr zs \<Rightarrow> Inr (alloc h2 (array1 zs)))
                     else Inr (y_copy, h2)) of
                 Inl e \<Rightarrow> (Inl e, h2)
               | Inr (preprocessed_y, h3) \<Rightarrow>
                   let n = int (len (h3 ! preprocessed_y));
                       half_width = w div 2;
                       (bg, h4) = alloc h3 (h3 ! preprocessed_y)
                   in case loop_i preprocessed_y bg half_width
                             (py_range half_width (n - half_width)) h4 of
                        (Some e, h5) \<Rightarrow> (Inl e, h5)
                      | (None, h5) \<Rightarrow>
                          let (clean_y, h6) =
                                alloc h5 (array1 (map (\<lambda>(a, b). fl_sub a b)
                                   (zip (data (h5 ! preprocessed_y)) (data (h5 ! bg)))))
                          in column_stack h6 x clean_y)"

text \<open>What a call hands back to its caller: the error, or the array at the returned address.\<close>

definition returned :: "(error + addr) \<times> heap \<Rightarrow> error + ndarray" where
  "returned r = (case fst r of Inl e \<Rightarrow> Inl e | Inr p \<Rightarrow> Inr (snd r ! p))"

text \<open>The two columns of a returned spectrum.\<close>

definition wavenumbers :: "ndarray \<Rightarrow> pyfloat list" where
  "wavenumbers a = column a 0"

definition intensities :: "ndarray \<Rightarrow> pyfloat list" where
  "intensities a = column a 1"

text \<open>An \<open>N\<close> by 2 table from its rows.\<close>

definition table2 :: "(pyfloat \<times> pyfloat) list \<Rightarrow> ndarray" where
  "table2 rows = \<lparr>shape = [length rows, 2], data = concat (map (\<lambda>(a, b). [a, b]) rows)\<rparr>"

subsection \<open>The function in rounded arithmetic\<close>

text \<open>
  A float64 operation on finite operands returns the exact result rounded, which can be
  an infinity when the exact result is too large. Here \<open>rnd\<close> stands for that
  rounding: it takes the exact rational result to the value the operation returns. The
  operations on the special values are as above. The function below is the function
  above with every arithmetic operation rounded by \<open>rnd\<close>; with \<open>Val\<close> for
  \<open>rnd\<close> it is the function above.
\<close>

fun fl_add_fp :: "(rat \<Rightarrow> pyfloat) \<Rightarrow> pyfloat \<Rightarrow> pyfloat \<Rightarrow> pyfloat" where
  "fl_add_fp rnd (Val a) (Val b) = rnd (a + b)"
| "fl_add_fp rnd x y = fl_add x y"

definition fl_sub_fp :: "(rat \<Rightarrow> pyfloat) \<Rightarrow> pyfloat \<Rightarrow> pyfloat \<Rightarrow> pyfloat" where
  "fl_sub_fp rnd x y = fl_add_fp rnd x (fl_neg y)"

fun fl_mul_fp :: "(rat \<Rightarrow> pyfloat) \<Rightarrow> pyfloat \<Rightarrow> pyfloat \<Rightarrow> pyfloat" where
  "fl_mul_fp rnd (Val a) (Val b) = rnd (a * b)"
| "fl_mul_fp rnd x y = fl_mul x y"

definition py_truediv_fp :: "(rat \<Rightarrow> pyfloat) \<Rightarrow> int \<Rightarrow> int \<Rightarrow> error + pyfloat" where
  "py_truediv_fp rnd a b =
     (if b = 0 then Inl ZeroDivisionError else Inr (rnd (of_int a / of_int b)))"

definition temp_intensity_fp ::
  "(rat \<Rightarrow> pyfloat) \<Rightarrow> heap \<Rightarrow> addr \<Rightarrow> int \<Rightarrow> int \<Rightarrow> int \<Rightarrow> error + pyfloat" where
  "temp_intensity_fp rnd h preprocessed_y i j k =
     (case nd_get h preprocessed_y (i + k) of Inl e \<Rightarrow> Inl e | Inr a \<Rightarrow>
      case nd_get h preprocessed_y (i - j) of Inl e \<Rightarrow> Inl e | Inr b \<Rightarrow>
      case py_truediv_fp rnd j (k + j) of Inl e \<Rightarrow> Inl e | Inr q \<Rightarrow>
      case nd_get h preprocessed_y (i - j) of Inl e \<Rightarrow> Inl e | Inr c \<Rightarrow>
        Inr (fl_add_fp rnd (fl_mul_fp rnd (fl_sub_fp rnd a b) q) c))"

fun loop_k_fp ::
  "(rat \<Rightarrow> pyfloat) \<Rightarrow> heap \<Rightarrow> addr \<Rightarrow> int \<Rightarrow> int \<Rightarrow> int list \<Rightarrow> pyfloat \<Rightarrow> error + pyfloat" where
  "loop_k_fp rnd h preprocessed_y i j [] lowest_intensity = Inr lowest_intensity"
| "loop_k_fp rnd h preprocessed_y i j (k # ks) lowest_intensity =
     (case temp_intensity_fp rnd h preprocessed_y i j k of
        Inl e \<Rightarrow> Inl e
      | Inr t \<Rightarrow> loop_k_fp rnd h preprocessed_y i j ks
                  (if fl_less t lowest_intensity then t else lowest_intensity))"

fun loop_j_fp ::
  "(rat \<Rightarrow> pyfloat) \<Rightarrow> heap \<Rightarrow> addr \<Rightarrow> int \<Rightarrow> int \<Rightarrow> int list \<Rightarrow> pyfloat \<Rightarrow> error + pyfloat" where
  "loop_j_fp rnd h preprocessed_y i half_width [] lowest_intensity = Inr lowest_intensity"
| "loop_j_fp rnd h preprocessed_y i half_width (j # js) lowest_intensity =
     (case loop_k_fp rnd h preprocessed_y i j (py_range 1 (half_width + 1)) lowest_intensity of
        Inl e \<Rightarrow> Inl e
      | Inr l \<Rightarrow> loop_j_fp rnd h preprocessed_y i half_width js l)"

fun loop_i_fp ::
  "(rat \<Rightarrow> pyfloat) \<Rightarrow> addr \<Rightarrow> addr \<Rightarrow> int \<Rightarrow> int list \<Rightarrow> heap \<Rightarrow> error option \<times> heap" where
  "loop_i_fp rnd preprocessed_y bg half_width [] h = (None, h)"
| "loop_i_fp rnd preprocessed_y bg half_width (i # is) h =
     (case loop_j_fp rnd h preprocessed_y i half_width (py_range 1 (half_width + 1)) PInf of
        Inl e \<Rightarrow> (Some e, h)
      | Inr lowest_intensity \<Rightarrow>
          (case nd_set h bg i lowest_intensity of
             Inl e \<Rightarrow> (Some e, h)
           | Inr h' \<Rightarrow> loop_i_fp rnd preprocessed_y bg half_width is h'))"

definition remove_fluo_spectra_lowest_point_fp ::
  "(rat \<Rightarrow> pyfloat) \<Rightarrow> (pyfloat list \<Rightarrow> error + pyfloat list) \<Rightarrow> addr \<Rightarrow> pynum \<Rightarrow> bool \<Rightarrow> heap
     \<Rightarrow> (error + addr) \<times> heap" where
  "remove_fluo_spectra_lowest_point_fp rnd savgol_filter input_spectrum int_width
       need_to_be_smoothed h =
     (if ndim (h ! input_spectrum) \<noteq> 2 \<or> shape (h ! input_spectrum) ! 1 \<noteq> 2
      then (Inl InvalidShape, h)
      else case py_int int_width of
        Inl e \<Rightarrow> (Inl e, h)
      | Inr w \<Rightarrow>
          if w < 2 then (Inl InvalidParameter_too_small, h)
          else if w mod 2 \<noteq> 0 then (Inl InvalidParameter_odd, h)
          else
            let x = (input_spectrum, 0::nat);
                (y, h1) = alloc h (array1 (column (h ! input_spectrum) 1));
                (y_copy, h2) = alloc h1 (h1 ! y)
            in case (if need_to_be_smoothed
                     then (case savgol_filter (data (h2 ! y)) of
                             Inl e \<Rightarrow> Inl e
                           | Inr zs \<Rightarrow> Inr (alloc h2 (array1 zs)))
                     else Inr (y_copy, h2)) of
                 Inl e \<Rightarrow> (Inl e, h2)
               | Inr (preprocessed_y, h3) \<Rightarrow>
                   let n = int (len (h3 ! preprocessed_y));
                       half_width = w div 2;
                       (bg, h4) = alloc h3 (h3 ! preprocessed_y)
                   in case loop_i_fp rnd preprocessed_y bg half_width
                             (py_range half_width (n - half_width)) h4 of
                        (Some e, h5) \<Rightarrow> (Inl e, h5)
                      | (None, h5) \<Rightarrow>
                          let (clean_y, h6) =
                                alloc h5 (array1 (map (\<lambda>(a, b). fl_sub_fp rnd a b)
                                   (zip (data (h5 ! preprocessed_y)) (data (h5 ! bg)))))
                          in column_stack h6 x clean_y)"

subsection \<open>Notions the properties are stated with\<close>


text \<open>
  The candidate of the specification at index \<open>i\<close> for the left offset \<open>j\<close> and the
  right offset \<open>k\<close>: \<^verbatim>\<open>(y[i+k] - y[i-j]) * (j / (j + k)) + y[i-j]\<close>, and the set of
  the candidates of all pairs of offsets from 1 to the half width.
\<close>

definition candidate :: "pyfloat list \<Rightarrow> nat \<Rightarrow> nat \<Rightarrow> nat \<Rightarrow> pyfloat" where
  "candidate y i j k =
     fl_add (fl_mul (fl_sub (y ! (i + k)) (y ! (i - j))) (Val (of_nat j / of_nat (j + k))))
            (y ! (i - j))"

definition candidates :: "pyfloat list \<Rightarrow> nat \<Rightarrow> nat \<Rightarrow> pyfloat set" where
  "candidates y i half_width =
     (\<lambda>(j, k). candidate y i j k) ` ({1..half_width} \<times> {1..half_width})"



text \<open>
  With smoothing off a call allocates \<open>y\<close>, its copy \<open>preprocessed_y\<close>, \<open>bg\<close>,
  \<open>clean_y\<close> and the result, in this order, so the array \<open>bg\<close> is the third array
  the call adds to the store. This reads its elements in the store the call leaves.
\<close>

definition background_after :: "heap \<Rightarrow> (error + addr) \<times> heap \<Rightarrow> pyfloat list" where
  "background_after h r = data (snd r ! (length h + 2))"

subsection \<open>The values a call computes\<close>

text \<open>
  The same computation on plain lists, without the store and without the checks of the
  array accesses. The lemmas below show that the function above computes these values;
  the properties are then read off them.
\<close>

definition cand :: "pyfloat list \<Rightarrow> int \<Rightarrow> int \<Rightarrow> int \<Rightarrow> pyfloat" where
  "cand ys i j k =
     fl_add (fl_mul (fl_sub (ys ! nat (i + k)) (ys ! nat (i - j))) (Val (of_int j / of_int (k + j))))
            (ys ! nat (i - j))"

definition keep_lower :: "pyfloat \<Rightarrow> pyfloat \<Rightarrow> pyfloat" where
  "keep_lower t l = (if fl_less t l then t else l)"

definition lowest :: "pyfloat list \<Rightarrow> int \<Rightarrow> int \<Rightarrow> pyfloat" where
  "lowest ys half_width i =
     fold (\<lambda>j. fold (\<lambda>k. keep_lower (cand ys i j k)) (py_range 1 (half_width + 1)))
          (py_range 1 (half_width + 1)) PInf"

definition background :: "pyfloat list \<Rightarrow> int \<Rightarrow> int list \<Rightarrow> pyfloat list \<Rightarrow> pyfloat list" where
  "background ys half_width is bg = fold (\<lambda>i d. d[nat i := lowest ys half_width i]) is bg"

definition bg_final :: "pyfloat list \<Rightarrow> int \<Rightarrow> pyfloat list" where
  "bg_final ys half_width =
     background ys half_width (py_range half_width (int (length ys) - half_width)) ys"

definition clean_of :: "pyfloat list \<Rightarrow> int \<Rightarrow> pyfloat list" where
  "clean_of ys half_width = map (\<lambda>(a, b). fl_sub a b) (zip ys (bg_final ys half_width))"

definition stacked :: "pyfloat list \<Rightarrow> pyfloat list \<Rightarrow> ndarray" where
  "stacked xs cs = \<lparr>shape = [length xs, 2], data = concat (map (\<lambda>(a, b). [a, b]) (zip xs cs))\<rparr>"

text \<open>The same values in the arithmetic rounded by \<open>rnd\<close>.\<close>

definition cand_fp :: "(rat \<Rightarrow> pyfloat) \<Rightarrow> pyfloat list \<Rightarrow> int \<Rightarrow> int \<Rightarrow> int \<Rightarrow> pyfloat" where
  "cand_fp rnd ys i j k =
     fl_add_fp rnd
       (fl_mul_fp rnd (fl_sub_fp rnd (ys ! nat (i + k)) (ys ! nat (i - j)))
          (rnd (of_int j / of_int (k + j))))
       (ys ! nat (i - j))"

definition lowest_fp :: "(rat \<Rightarrow> pyfloat) \<Rightarrow> pyfloat list \<Rightarrow> int \<Rightarrow> int \<Rightarrow> pyfloat" where
  "lowest_fp rnd ys half_width i =
     fold (\<lambda>j. fold (\<lambda>k. keep_lower (cand_fp rnd ys i j k)) (py_range 1 (half_width + 1)))
          (py_range 1 (half_width + 1)) PInf"

definition background_fp ::
  "(rat \<Rightarrow> pyfloat) \<Rightarrow> pyfloat list \<Rightarrow> int \<Rightarrow> int list \<Rightarrow> pyfloat list \<Rightarrow> pyfloat list" where
  "background_fp rnd ys half_width is bg =
     fold (\<lambda>i d. d[nat i := lowest_fp rnd ys half_width i]) is bg"

definition bg_final_fp :: "(rat \<Rightarrow> pyfloat) \<Rightarrow> pyfloat list \<Rightarrow> int \<Rightarrow> pyfloat list" where
  "bg_final_fp rnd ys half_width =
     background_fp rnd ys half_width (py_range half_width (int (length ys) - half_width)) ys"

definition clean_of_fp :: "(rat \<Rightarrow> pyfloat) \<Rightarrow> pyfloat list \<Rightarrow> int \<Rightarrow> pyfloat list" where
  "clean_of_fp rnd ys half_width =
     map (\<lambda>(a, b). fl_sub_fp rnd a b) (zip ys (bg_final_fp rnd ys half_width))"

text \<open>What a call returns, as a function of the input array alone.\<close>

definition result_value ::
  "(pyfloat list \<Rightarrow> error + pyfloat list) \<Rightarrow> ndarray \<Rightarrow> pynum \<Rightarrow> bool \<Rightarrow> error + ndarray" where
  "result_value s a int_width smooth =
     (if ndim a \<noteq> 2 \<or> shape a ! 1 \<noteq> 2 then Inl InvalidShape
      else case py_int int_width of
        Inl e \<Rightarrow> Inl e
      | Inr w \<Rightarrow>
          if w < 2 then Inl InvalidParameter_too_small
          else if w mod 2 \<noteq> 0 then Inl InvalidParameter_odd
          else case (if smooth then s (column a 1) else Inr (column a 1)) of
            Inl e \<Rightarrow> Inl e
          | Inr ys \<Rightarrow>
              if length (column a 0) \<noteq> length ys
              then Inl (ValueError ''all the input array dimensions except for the concatenation axis must match exactly'')
              else Inr (stacked (column a 0) (clean_of ys (w div 2))))"

subsection \<open>Concrete spectra\<close>

text \<open>
  A flat baseline with one spike at index 5, a three-sample spectrum, a spectrum whose
  last intensity is NaN, the ramp \<open>2 i + 1\<close>, and a table with three columns.
\<close>

definition spike_spectrum :: ndarray where
  "spike_spectrum = table2
     [(Val 0, Val 0), (Val 1, Val 0), (Val 2, Val 0), (Val 3, Val 0), (Val 4, Val 0),
      (Val 5, Val 10), (Val 6, Val 0), (Val 7, Val 0), (Val 8, Val 0), (Val 9, Val 0),
      (Val 10, Val 0)]"

definition small_spectrum :: ndarray where
  "small_spectrum = table2 [(Val 100, Val 1), (Val 200, Val 5), (Val 300, Val 3)]"


definition ramp_spectrum :: ndarray where
  "ramp_spectrum = table2 [(Val 0, Val 1), (Val 1, Val 3), (Val 2, Val 5), (Val 3, Val 7), (Val 4, Val 9)]"

definition three_columns :: ndarray where
  "three_columns = \<lparr>shape = [2, 3], data = [Val 0, Val 1, Val 2, Val 3, Val 4, Val 5]\<rparr>"



section \<open>The loops never leave the array\<close>

lemma nd_index_in: "0 \<le> i \<Longrightarrow> i < int n \<Longrightarrow> nd_index n i = Inr (nat i)"
  by (simp add: nd_index_def)

lemma nd_get_in: "0 \<le> i \<Longrightarrow> i < int (len (h ! p)) \<Longrightarrow> nd_get h p i = Inr (data (h ! p) ! nat i)"
  by (simp add: nd_get_def nd_index_in)

lemma nd_set_in:
  "0 \<le> i \<Longrightarrow> i < int (len (h ! p)) \<Longrightarrow>
   nd_set h p i v = Inr (h[p := (h ! p)\<lparr>data := (data (h ! p))[nat i := v]\<rparr>])"
  by (simp add: nd_set_def nd_index_in)

lemma temp_intensity_in:
  assumes "1 \<le> j" "1 \<le> k" "j \<le> i" "i + k < int (len (h ! p))"
  shows "temp_intensity h p i j k = Inr (cand (data (h ! p)) i j k)"
proof -
  have a: "nd_get h p (i + k) = Inr (data (h ! p) ! nat (i + k))"
    using assms by (intro nd_get_in) auto
  have b: "nd_get h p (i - j) = Inr (data (h ! p) ! nat (i - j))"
    using assms by (intro nd_get_in) auto
  have q: "py_truediv j (k + j) = Inr (Val (of_int j / of_int (k + j)))"
    using assms by (simp add: py_truediv_def)
  show ?thesis
    by (simp add: temp_intensity_def a b q cand_def)
qed

lemma loop_k_in:
  assumes "1 \<le> j" "j \<le> i" "\<forall>k\<in>set ks. 1 \<le> k \<and> i + k < int (len (h ! p))"
  shows "loop_k h p i j ks l = Inr (fold (\<lambda>k. keep_lower (cand (data (h ! p)) i j k)) ks l)"
  using assms(3)
proof (induction ks arbitrary: l)
  case Nil
  show ?case by simp
next
  case (Cons k ks)
  have t: "temp_intensity h p i j k = Inr (cand (data (h ! p)) i j k)"
    using assms(1,2) Cons.prems by (intro temp_intensity_in) auto
  show ?case
    using Cons by (simp add: t keep_lower_def)
qed

lemma loop_j_in:
  assumes "j0 \<le> i" "i + half_width < int (len (h ! p))" "\<forall>j\<in>set js. 1 \<le> j \<and> j \<le> j0"
  shows "loop_j h p i half_width js l =
         Inr (fold (\<lambda>j. fold (\<lambda>k. keep_lower (cand (data (h ! p)) i j k))
                (py_range 1 (half_width + 1))) js l)"
  using assms(3)
proof (induction js arbitrary: l)
  case Nil
  show ?case by simp
next
  case (Cons j js)
  have "loop_k h p i j (py_range 1 (half_width + 1)) l =
        Inr (fold (\<lambda>k. keep_lower (cand (data (h ! p)) i j k)) (py_range 1 (half_width + 1)) l)"
    using assms(1,2) Cons.prems by (intro loop_k_in) (auto simp: py_range_def)
  then show ?case
    using Cons by simp
qed

lemma loop_j_lowest:
  assumes "half_width \<le> i" "i + half_width < int (len (h ! p))"
  shows "loop_j h p i half_width (py_range 1 (half_width + 1)) PInf =
         Inr (lowest (data (h ! p)) half_width i)"
  unfolding lowest_def
  using assms by (intro loop_j_in[where ?j0.0 = half_width]) (auto simp: py_range_def)

lemma loop_i_in:
  assumes "p < length h" "b < length h" "p \<noteq> b" "len (h ! b) = len (h ! p)" "0 \<le> half_width"
    and "\<forall>i\<in>set is. half_width \<le> i \<and> i + half_width < int (len (h ! p))"
  shows "loop_i p b half_width is h =
         (None, h[b := (h ! b)\<lparr>data := background (data (h ! p)) half_width is (data (h ! b))\<rparr>])"
  using assms
proof (induction "is" arbitrary: h)
  case Nil
  then show ?case by (simp add: background_def)
next
  case (Cons i "is")
  let ?v = "lowest (data (h ! p)) half_width i"
  let ?h = "h[b := (h ! b)\<lparr>data := (data (h ! b))[nat i := ?v]\<rparr>]"
  have i: "half_width \<le> i" "i + half_width < int (len (h ! p))"
    using Cons.prems by auto
  have lj: "loop_j h p i half_width (py_range 1 (half_width + 1)) PInf = Inr ?v"
    using i by (rule loop_j_lowest)
  have st: "nd_set h b i ?v = Inr ?h"
    using i Cons.prems(4,5) by (intro nd_set_in) auto
  have hp: "?h ! p = h ! p"
    using Cons.prems(3) by simp
  have hb: "?h ! b = (h ! b)\<lparr>data := (data (h ! b))[nat i := ?v]\<rparr>"
    using Cons.prems(2) by simp
  have "loop_i p b half_width is ?h =
        (None, ?h[b := (?h ! b)\<lparr>data := background (data (?h ! p)) half_width is (data (?h ! b))\<rparr>])"
  proof (rule Cons.IH)
    show "p < length ?h" "b < length ?h" "p \<noteq> b" "0 \<le> half_width"
      using Cons.prems by simp_all
    show "len (?h ! b) = len (?h ! p)"
      using Cons.prems(4) by (simp add: hp hb len_def)
    show "\<forall>i\<in>set is. half_width \<le> i \<and> i + half_width < int (len (?h ! p))"
      using Cons.prems(6) by (simp add: hp)
  qed
  then show ?case
    by (simp add: lj st hp hb background_def)
qed

lemma loop_i_fresh:
  assumes "p < length h" "0 \<le> half_width"
  shows "loop_i p (length h) half_width
           (py_range half_width (int (len (h ! p)) - half_width)) (h @ [h ! p]) =
         (None, h @ [(h ! p)\<lparr>data := bg_final (data (h ! p)) half_width\<rparr>])"
proof -
  let ?h = "h @ [h ! p]"
  have "loop_i p (length h) half_width
           (py_range half_width (int (len (?h ! p)) - half_width)) ?h =
        (None, ?h[length h := (?h ! length h)\<lparr>data := background (data (?h ! p)) half_width
            (py_range half_width (int (len (?h ! p)) - half_width)) (data (?h ! length h))\<rparr>])"
    using assms by (intro loop_i_in) (auto simp: nth_append py_range_def)
  then show ?thesis
    using assms by (simp add: nth_append bg_final_def len_def)
qed

section \<open>A call in closed form\<close>

lemma length_background [simp]: "length (background ys hw is bg) = length bg"
  unfolding background_def by (induction "is" arbitrary: bg) auto

lemma length_bg_final [simp]: "length (bg_final ys hw) = length ys"
  by (simp add: bg_final_def)

lemma length_clean_of [simp]: "length (clean_of ys hw) = length ys"
  by (simp add: clean_of_def)

lemma length_column [simp]: "length (column a c) = shape a ! 0"
  by (simp add: column_def)

lemma data_array1: "data (array1 xs) = xs"
  by (simp add: array1_def)

lemma len_array1: "len (array1 xs) = length xs"
  by (simp add: array1_def len_def)

lemma array1_update: "length d = length xs \<Longrightarrow> (array1 xs)\<lparr>data := d\<rparr> = array1 d"
  by (simp add: array1_def)

lemma valid_shape:
  assumes "shape a = [N, 2]"
  shows "ndim a = 2" "shape a ! 1 = 2" "shape a ! 0 = N"
  using assms by (simp_all add: ndim_def)

lemma remove_fluo_invalid_shape:
  assumes "ndim (h ! p) \<noteq> 2 \<or> shape (h ! p) ! 1 \<noteq> 2"
  shows "remove_fluo_spectra_lowest_point s p w sm h = (Inl InvalidShape, h)"
  using assms by (simp add: remove_fluo_spectra_lowest_point_def)

lemma remove_fluo_int_error:
  assumes "ndim (h ! p) = 2" "shape (h ! p) ! 1 = 2" "py_int w = Inl e"
  shows "remove_fluo_spectra_lowest_point s p w sm h = (Inl e, h)"
  using assms by (simp add: remove_fluo_spectra_lowest_point_def)

lemma remove_fluo_too_small:
  assumes "ndim (h ! p) = 2" "shape (h ! p) ! 1 = 2" "py_int w = Inr n" "n < 2"
  shows "remove_fluo_spectra_lowest_point s p w sm h = (Inl InvalidParameter_too_small, h)"
  using assms by (simp add: remove_fluo_spectra_lowest_point_def)

lemma remove_fluo_odd:
  assumes "ndim (h ! p) = 2" "shape (h ! p) ! 1 = 2" "py_int w = Inr n" "2 \<le> n" "n mod 2 \<noteq> 0"
  shows "remove_fluo_spectra_lowest_point s p w sm h = (Inl InvalidParameter_odd, h)"
  using assms by (simp add: remove_fluo_spectra_lowest_point_def)

lemma remove_fluo_unsmoothed:
  assumes "p < length h" "ndim (h ! p) = 2" "shape (h ! p) ! 1 = 2"
    and "py_int w = Inr n" "2 \<le> n" "n mod 2 = 0"
  shows "remove_fluo_spectra_lowest_point s p w False h =
         (Inr (length h + 4),
          h @ [array1 (column (h ! p) 1), array1 (column (h ! p) 1),
               array1 (bg_final (column (h ! p) 1) (n div 2)),
               array1 (clean_of (column (h ! p) 1) (n div 2)),
               stacked (column (h ! p) 0) (clean_of (column (h ! p) 1) (n div 2))])"
proof -
  let ?ys = "column (h ! p) 1"
  let ?Y = "array1 ?ys"
  have hw: "0 \<le> n div 2"
    using assms(5) by simp
  have l: "loop_i (Suc (length h)) (Suc (Suc (length h))) (n div 2)
              (py_range (n div 2) (int (shape (h ! p) ! 0) - n div 2)) (h @ [?Y, ?Y, ?Y]) =
            (None, h @ [?Y, ?Y, array1 (bg_final ?ys (n div 2))])"
    using loop_i_fresh[of "Suc (length h)" "h @ [?Y, ?Y]" "n div 2"] hw
    by (simp add: nth_append len_array1 data_array1 array1_update)
  show ?thesis
    using assms(2-6)
    using assms(1)
    by (simp add: remove_fluo_spectra_lowest_point_def alloc_def Let_def nth_append l
        clean_of_def[symmetric] len_array1 data_array1 column_stack_def stacked_def
        del: One_nat_def)
qed

lemma remove_fluo_smoothed:
  assumes "p < length h" "ndim (h ! p) = 2" "shape (h ! p) ! 1 = 2"
    and "py_int w = Inr n" "2 \<le> n" "n mod 2 = 0" "s (column (h ! p) 1) = Inr zs"
  shows "remove_fluo_spectra_lowest_point s p w True h =
         (if shape (h ! p) ! 0 \<noteq> length zs
          then (Inl (ValueError ''all the input array dimensions except for the concatenation axis must match exactly''),
                h @ [array1 (column (h ! p) 1), array1 (column (h ! p) 1), array1 zs,
                     array1 (bg_final zs (n div 2)), array1 (clean_of zs (n div 2))])
          else (Inr (length h + 5),
                h @ [array1 (column (h ! p) 1), array1 (column (h ! p) 1), array1 zs,
                     array1 (bg_final zs (n div 2)), array1 (clean_of zs (n div 2)),
                     stacked (column (h ! p) 0) (clean_of zs (n div 2))]))"
proof -
  let ?ys = "column (h ! p) 1"
  let ?Y = "array1 ?ys"
  have hw: "0 \<le> n div 2"
    using assms(5) by simp
  have l: "loop_i (Suc (Suc (length h))) (Suc (Suc (Suc (length h)))) (n div 2)
              (py_range (n div 2) (int (length zs) - n div 2)) (h @ [?Y, ?Y, array1 zs, array1 zs]) =
            (None, h @ [?Y, ?Y, array1 zs, array1 (bg_final zs (n div 2))])"
    using loop_i_fresh[of "Suc (Suc (length h))" "h @ [?Y, ?Y, array1 zs]" "n div 2"] hw
    by (simp add: nth_append len_array1 data_array1 array1_update)
  show ?thesis
    using assms(2-7)
    using assms(1)
    by (simp add: remove_fluo_spectra_lowest_point_def alloc_def Let_def nth_append l
        clean_of_def[symmetric] len_array1 data_array1 column_stack_def stacked_def
        del: One_nat_def)
qed

lemma remove_fluo_smoother_error:
  assumes "ndim (h ! p) = 2" "shape (h ! p) ! 1 = 2"
    and "py_int w = Inr n" "2 \<le> n" "n mod 2 = 0" "s (column (h ! p) 1) = Inl e"
  shows "remove_fluo_spectra_lowest_point s p w True h =
         (Inl e, h @ [array1 (column (h ! p) 1), array1 (column (h ! p) 1)])"
  using assms
  by (simp add: remove_fluo_spectra_lowest_point_def alloc_def Let_def nth_append data_array1
      del: One_nat_def)

lemma remove_fluo_returned:
  assumes "p < length h"
  shows "returned (remove_fluo_spectra_lowest_point s p w sm h) = result_value s (h ! p) w sm"
proof (cases "ndim (h ! p) \<noteq> 2 \<or> shape (h ! p) ! 1 \<noteq> 2")
  case True
  then show ?thesis
    by (simp add: remove_fluo_invalid_shape result_value_def returned_def del: One_nat_def)
next
  case shape_ok: False
  show ?thesis
  proof (cases "py_int w")
    case (Inl e)
    then show ?thesis
      using shape_ok
      by (simp add: remove_fluo_int_error result_value_def returned_def del: One_nat_def)
  next
    case (Inr n)
    consider "n < 2" | "2 \<le> n" "n mod 2 \<noteq> 0" | "2 \<le> n" "n mod 2 = 0"
      by linarith
    then show ?thesis
    proof cases
      case 1
      then show ?thesis
        using shape_ok Inr
        by (simp add: remove_fluo_too_small result_value_def returned_def del: One_nat_def)
    next
      case 2
      then show ?thesis
        using shape_ok Inr
        by (simp add: remove_fluo_odd result_value_def returned_def del: One_nat_def)
    next
      case 3
      show ?thesis
      proof (cases sm)
        case False
        have "remove_fluo_spectra_lowest_point s p w False h =
         (Inr (length h + 4),
          h @ [array1 (column (h ! p) 1), array1 (column (h ! p) 1),
               array1 (bg_final (column (h ! p) 1) (n div 2)),
               array1 (clean_of (column (h ! p) 1) (n div 2)),
               stacked (column (h ! p) 0) (clean_of (column (h ! p) 1) (n div 2))])"
          using assms shape_ok Inr 3 by (intro remove_fluo_unsmoothed) auto
        then show ?thesis
          using shape_ok Inr 3 False
          by (simp add: result_value_def returned_def nth_append del: One_nat_def)
      next
        case True
        show ?thesis
        proof (cases "s (column (h ! p) 1)")
          case (Inl e)
          then show ?thesis
            using shape_ok Inr 3 True
            by (simp add: remove_fluo_smoother_error result_value_def returned_def
                del: One_nat_def)
        next
          case zs: (Inr zs)
          have "remove_fluo_spectra_lowest_point s p w True h =
         (if shape (h ! p) ! 0 \<noteq> length zs
          then (Inl (ValueError ''all the input array dimensions except for the concatenation axis must match exactly''),
                h @ [array1 (column (h ! p) 1), array1 (column (h ! p) 1), array1 zs,
                     array1 (bg_final zs (n div 2)), array1 (clean_of zs (n div 2))])
          else (Inr (length h + 5),
                h @ [array1 (column (h ! p) 1), array1 (column (h ! p) 1), array1 zs,
                     array1 (bg_final zs (n div 2)), array1 (clean_of zs (n div 2)),
                     stacked (column (h ! p) 0) (clean_of zs (n div 2))]))"
            using assms shape_ok Inr 3 zs by (intro remove_fluo_smoothed) auto
          then show ?thesis
            using shape_ok Inr 3 True zs
            by (simp add: result_value_def returned_def nth_append del: One_nat_def)
        qed
      qed
    qed
  qed
qed

lemma remove_fluo_frame:
  assumes "p < length h"
  shows "take (length h) (snd (remove_fluo_spectra_lowest_point s p w sm h)) = h"
proof (cases "ndim (h ! p) \<noteq> 2 \<or> shape (h ! p) ! 1 \<noteq> 2")
  case True
  then show ?thesis
    by (simp add: remove_fluo_invalid_shape del: One_nat_def)
next
  case shape_ok: False
  show ?thesis
  proof (cases "py_int w")
    case (Inl e)
    then show ?thesis
      using shape_ok by (simp add: remove_fluo_int_error del: One_nat_def)
  next
    case (Inr n)
    consider "n < 2" | "2 \<le> n" "n mod 2 \<noteq> 0" | "2 \<le> n" "n mod 2 = 0"
      by linarith
    then show ?thesis
    proof cases
      case 1
      then show ?thesis
        using shape_ok Inr by (simp add: remove_fluo_too_small del: One_nat_def)
    next
      case 2
      then show ?thesis
        using shape_ok Inr by (simp add: remove_fluo_odd del: One_nat_def)
    next
      case 3
      show ?thesis
      proof (cases sm)
        case False
        then show ?thesis
          using assms shape_ok Inr 3 by (simp add: remove_fluo_unsmoothed del: One_nat_def)
      next
        case True
        show ?thesis
        proof (cases "s (column (h ! p) 1)")
          case (Inl e)
          then show ?thesis
            using shape_ok Inr 3 True
            by (simp add: remove_fluo_smoother_error del: One_nat_def)
        next
          case zs: (Inr zs)
          then show ?thesis
            using assms shape_ok Inr 3 True
            by (simp add: remove_fluo_smoothed del: One_nat_def)
        qed
      qed
    qed
  qed
qed

section \<open>The background and the returned table\<close>

lemma background_nth:
  assumes "\<forall>i\<in>set is. 0 \<le> i" "m < length bg"
  shows "background ys hw is bg ! m = (if int m \<in> set is then lowest ys hw (int m) else bg ! m)"
  using assms
proof (induction "is" arbitrary: bg)
  case Nil
  then show ?case by (simp add: background_def)
next
  case (Cons i "is")
  have step: "background ys hw (i # is) bg = background ys hw is (bg[nat i := lowest ys hw i])"
    by (simp add: background_def)
  have "0 \<le> i"
    using Cons.prems by simp
  then have eq: "nat i = m \<longleftrightarrow> i = int m"
    by auto
  show ?case
    using Cons.IH[of "bg[nat i := lowest ys hw i]"] Cons.prems eq
    by (auto simp: step nth_list_update)
qed

lemma bg_final_nth:
  assumes "0 \<le> hw" "m < length ys"
  shows "bg_final ys hw ! m =
         (if hw \<le> int m \<and> int m + hw < int (length ys) then lowest ys hw (int m) else ys ! m)"
proof -
  have "bg_final ys hw ! m =
        (if int m \<in> set (py_range hw (int (length ys) - hw)) then lowest ys hw (int m) else ys ! m)"
    unfolding bg_final_def using assms by (intro background_nth) (auto simp: py_range_def)
  then show ?thesis
    by (auto simp: py_range_def)
qed

lemma edge_background:
  assumes "i < length ys" "i < hw \<or> length ys \<le> i + hw"
  shows "bg_final ys (int hw) ! i = ys ! i"
  using assms by (auto simp: bg_final_nth)

lemma clean_of_nth:
  assumes "m < length ys"
  shows "clean_of ys hw ! m = fl_sub (ys ! m) (bg_final ys hw ! m)"
  using assms by (simp add: clean_of_def)

lemma interleave_nth_even:
  "length xs = length cs \<Longrightarrow> r < length xs \<Longrightarrow>
   concat (map (\<lambda>(a, b). [a, b]) (zip xs cs)) ! (r * 2) = xs ! r"
proof (induction xs cs arbitrary: r rule: list_induct2)
  case Nil
  then show ?case by simp
next
  case (Cons x xs c cs)
  then show ?case by (cases r) simp_all
qed

lemma interleave_nth_odd:
  "length xs = length cs \<Longrightarrow> r < length xs \<Longrightarrow>
   concat (map (\<lambda>(a, b). [a, b]) (zip xs cs)) ! Suc (r * 2) = cs ! r"
proof (induction xs cs arbitrary: r rule: list_induct2)
  case Nil
  then show ?case by simp
next
  case (Cons x xs c cs)
  then show ?case by (cases r) simp_all
qed

lemma length_interleave:
  "length xs = length cs \<Longrightarrow> length (concat (map (\<lambda>(a, b). [a, b]) (zip xs cs))) = 2 * length xs"
  by (induction xs cs rule: list_induct2) auto

lemma stacked_columns:
  assumes "length xs = length cs"
  shows "wavenumbers (stacked xs cs) = xs" "intensities (stacked xs cs) = cs"
    "shape (stacked xs cs) = [length xs, 2]" "wf_ndarray (stacked xs cs)"
proof -
  show "wavenumbers (stacked xs cs) = xs"
    using assms
    by (intro nth_equalityI) (simp_all add: wavenumbers_def column_def stacked_def interleave_nth_even)
  show "intensities (stacked xs cs) = cs"
    using assms
    by (intro nth_equalityI) (simp_all add: intensities_def column_def stacked_def interleave_nth_odd)
  show "shape (stacked xs cs) = [length xs, 2]"
    by (simp add: stacked_def)
  show "wf_ndarray (stacked xs cs)"
    using assms by (simp add: wf_ndarray_def stacked_def length_interleave)
qed

lemma length_intensities: "shape a = [N, 2] \<Longrightarrow> length (intensities a) = N"
  by (simp add: intensities_def)

lemma length_wavenumbers: "shape a = [N, 2] \<Longrightarrow> length (wavenumbers a) = N"
  by (simp add: wavenumbers_def)

lemma unsmoothed_call:
  assumes "p < length h" "shape (h ! p) = [N, 2]"
    and "py_int int_width = Inr w" "2 \<le> w" "even w" "half_width = nat (w div 2)"
  shows "returned (remove_fluo_spectra_lowest_point s p int_width False h) =
           Inr (stacked (wavenumbers (h ! p)) (clean_of (intensities (h ! p)) (int half_width)))"
    and "background_after h (remove_fluo_spectra_lowest_point s p int_width False h) =
           bg_final (intensities (h ! p)) (int half_width)"
proof -
  have hw: "w div 2 = int half_width"
    using assms(4,6) by simp
  have r: "remove_fluo_spectra_lowest_point s p int_width False h =
         (Inr (length h + 4),
          h @ [array1 (column (h ! p) 1), array1 (column (h ! p) 1),
               array1 (bg_final (column (h ! p) 1) (w div 2)),
               array1 (clean_of (column (h ! p) 1) (w div 2)),
               stacked (column (h ! p) 0) (clean_of (column (h ! p) 1) (w div 2))])"
    using assms(1-5) by (intro remove_fluo_unsmoothed) (auto simp: ndim_def)
  show "returned (remove_fluo_spectra_lowest_point s p int_width False h) =
           Inr (stacked (wavenumbers (h ! p)) (clean_of (intensities (h ! p)) (int half_width)))"
    unfolding r by (simp add: returned_def nth_append wavenumbers_def intensities_def hw)
  show "background_after h (remove_fluo_spectra_lowest_point s p int_width False h) =
           bg_final (intensities (h ! p)) (int half_width)"
    unfolding r by (simp add: background_after_def nth_append intensities_def hw data_array1)
qed

lemma unsmoothed_result:
  assumes "p < length h" "shape (h ! p) = [N, 2]"
    and "py_int int_width = Inr w" "2 \<le> w" "even w" "half_width = nat (w div 2)"
  shows "\<exists>out. returned (remove_fluo_spectra_lowest_point s p int_width False h) = Inr out \<and>
           shape out = [N, 2] \<and> wf_ndarray out \<and>
           wavenumbers out = wavenumbers (h ! p) \<and>
           intensities out = clean_of (intensities (h ! p)) (int half_width)"
proof -
  let ?xs = "wavenumbers (h ! p)" and ?cs = "clean_of (intensities (h ! p)) (int half_width)"
  have len: "length ?xs = length ?cs"
    using assms(2) by (simp add: length_wavenumbers length_intensities)
  have "shape (stacked ?xs ?cs) = [N, 2]"
    using stacked_columns(3)[OF len] assms(2) by (simp add: length_wavenumbers)
  then show ?thesis
    using unsmoothed_call(1)[OF assms, of s] stacked_columns[OF len] by simp
qed

lemma result_value_shape:
  assumes "result_value s a int_width sm = Inr out"
  shows "shape out = [shape a ! 0, 2] \<and> wf_ndarray out \<and> wavenumbers out = wavenumbers a"
proof -
  have ok: "\<not> (ndim a \<noteq> 2 \<or> shape a ! 1 \<noteq> 2)"
    using assms by (auto simp: result_value_def split: if_splits simp del: One_nat_def)
  obtain w where w: "py_int int_width = Inr w" "\<not> w < 2" "\<not> w mod 2 \<noteq> 0"
    using assms ok
    by (auto simp: result_value_def split: sum.splits if_splits simp del: One_nat_def)
  obtain ys where ys: "(if sm then s (column a 1) else Inr (column a 1)) = Inr ys"
    using assms ok w
    by (auto simp: result_value_def split: sum.splits if_splits simp del: One_nat_def)
  have len: "length (column a 0) = length (clean_of ys (w div 2))"
    and out: "out = stacked (column a 0) (clean_of ys (w div 2))"
    using assms ok w ys
    by (auto simp: result_value_def split: if_splits simp del: One_nat_def)
  show ?thesis
    unfolding out using stacked_columns[OF len] by (simp add: wavenumbers_def)
qed

lemma errors_distinct:
  "ValueError ''all the input array dimensions except for the concatenation axis must match exactly'' \<noteq> InvalidParameter_too_small"
  "ValueError ''all the input array dimensions except for the concatenation axis must match exactly'' \<noteq> InvalidParameter_odd"
  "InvalidParameter_too_small \<noteq> InvalidParameter_odd"
  "InvalidShape \<noteq> InvalidParameter_too_small"
  "InvalidShape \<noteq> InvalidParameter_odd"
  by (simp_all add: InvalidParameter_too_small_def InvalidParameter_odd_def InvalidShape_def)


section \<open>The running minimum\<close>

lemma fold_flatten:
  "fold (\<lambda>j. fold (\<lambda>k. keep_lower (c j k)) ks) js l =
   fold keep_lower (concat (map (\<lambda>j. map (c j) ks) js)) l"
  by (induction js arbitrary: l) (simp_all add: fold_map comp_def)





lemma fold_keep_lower_mem: "fold keep_lower cs l = l \<or> fold keep_lower cs l \<in> set cs"
proof (induction cs arbitrary: l)
  case Nil
  show ?case by simp
next
  case (Cons c cs)
  show ?case
    using Cons.IH[of "keep_lower c l"] by (auto simp: keep_lower_def)
qed


lemma fold_keep_lower_finite:
  assumes "cs \<noteq> []" "\<forall>c\<in>set cs. is_finite c"
  shows "fold keep_lower cs PInf \<in> set cs"
proof -
  obtain c cs' where cs: "cs = c # cs'"
    using assms(1) by (cases cs) auto
  obtain a where a: "c = Val a"
    using assms(2) cs by (cases c) auto
  have "fold keep_lower cs PInf = fold keep_lower cs' (Val a)"
    by (simp add: cs a keep_lower_def)
  then show ?thesis
    using fold_keep_lower_mem[of cs' "Val a"] by (auto simp: cs a)
qed

lemma fold_keep_lower_const:
  assumes "cs \<noteq> []" "\<forall>c\<in>set cs. c = Val v"
  shows "fold keep_lower cs PInf = Val v"
proof -
  have "\<forall>c\<in>set cs. is_finite c"
    using assms(2) by (metis is_finite.simps(1))
  then have "fold keep_lower cs PInf \<in> set cs"
    by (rule fold_keep_lower_finite[OF assms(1)])
  then show ?thesis
    using assms(2) by blast
qed

lemma cand_candidate:
  "j \<le> i \<Longrightarrow> cand ys (int i) (int j) (int k) = candidate ys i j k"
  by (simp add: cand_def candidate_def nat_diff_distrib' add.commute flip: of_nat_add of_nat_diff)

lemma lowest_fold:
  assumes "1 \<le> hw" "hw \<le> i"
  shows "\<exists>cs. lowest ys (int hw) (int i) = fold keep_lower cs PInf \<and> cs \<noteq> [] \<and>
              set cs = candidates ys i hw"
proof -
  let ?ks = "py_range 1 (int hw + 1)"
  let ?cs = "concat (map (\<lambda>j. map (cand ys (int i) j) ?ks) ?ks)"
  have ks: "set ?ks = {1..int hw}"
    by (simp add: py_range_def)
  have 1: "lowest ys (int hw) (int i) = fold keep_lower ?cs PInf"
    by (simp add: lowest_def fold_flatten)
  have "1 \<in> set ?ks"
    using assms(1) unfolding ks by simp
  then have 2: "?cs \<noteq> []"
    by (auto simp: concat_eq_Nil_conv)
  have 3: "set ?cs = candidates ys i hw"
  proof (intro equalityI subsetI)
    fix c assume "c \<in> set ?cs"
    then obtain j k where jk: "1 \<le> j" "j \<le> int hw" "1 \<le> k" "k \<le> int hw"
      and c: "c = cand ys (int i) j k"
      by (auto simp: ks)
    have "cand ys (int i) (int (nat j)) (int (nat k)) = candidate ys i (nat j) (nat k)"
      using jk assms(2) by (intro cand_candidate) linarith
    then have "c = candidate ys i (nat j) (nat k)"
      using jk c by simp
    moreover have "nat j \<in> {1..hw}" "nat k \<in> {1..hw}"
      using jk by auto
    ultimately show "c \<in> candidates ys i hw"
      unfolding candidates_def by blast
  next
    fix c assume "c \<in> candidates ys i hw"
    then obtain j k where jk: "1 \<le> j" "j \<le> hw" "1 \<le> k" "k \<le> hw"
      and c: "c = candidate ys i j k"
      unfolding candidates_def by auto
    have "c = cand ys (int i) (int j) (int k)"
      using c cand_candidate[of j i ys k] jk assms(2) by simp
    moreover have "int j \<in> set ?ks" "int k \<in> set ?ks"
      unfolding ks using jk by auto
    ultimately show "c \<in> set ?cs"
      by auto
  qed
  show ?thesis
    using 1 2 3 by blast
qed

lemma interior_background:
  assumes "1 \<le> hw" "hw \<le> i" "i + hw < length ys"
  shows "\<exists>cs. bg_final ys (int hw) ! i = fold keep_lower cs PInf \<and> cs \<noteq> [] \<and>
              set cs = candidates ys i hw"
proof -
  have "bg_final ys (int hw) ! i = lowest ys (int hw) (int i)"
    using assms by (simp add: bg_final_nth)
  then show ?thesis
    using lowest_fold[OF assms(1,2), of ys] by simp
qed

lemma candidate_ramp:
  assumes "\<forall>m<length ys. ys ! m = Val (a * of_nat m + b)" "1 \<le> j" "j \<le> i" "i + k < length ys"
  shows "candidate ys i j k = ys ! i"
proof -
  have 1: "ys ! (i + k) = Val (a * of_nat (i + k) + b)"
    using assms by simp
  have 2: "ys ! (i - j) = Val (a * of_nat (i - j) + b)"
    using assms by simp
  have 3: "ys ! i = Val (a * of_nat i + b)"
    using assms by simp
  have jk: "(of_nat j + of_nat k :: rat) \<noteq> 0"
    using assms(2) by (metis of_nat_add of_nat_eq_0_iff add_is_0 not_one_le_zero)
  have "(a * of_nat (i + k) + b - (a * of_nat (i - j) + b)) * (of_nat j / of_nat (j + k))
          + (a * of_nat (i - j) + b) = a * of_nat i + b"
    using assms(3) jk by (simp add: of_nat_diff field_simps)
  then show ?thesis
    by (simp add: candidate_def 1 2 3 fl_sub_def)
qed

lemma fl_sub_self: "is_finite a \<Longrightarrow> fl_sub a a = Val 0"
  by (cases a) (auto simp: fl_sub_def)





section \<open>The call in rounded arithmetic, in closed form\<close>

lemma fl_add_fp_exact: "fl_add_fp Val x y = fl_add x y"
  by (cases x; cases y) simp_all

lemma fl_mul_fp_exact: "fl_mul_fp Val x y = fl_mul x y"
  by (cases x; cases y) simp_all

lemma fl_sub_fp_exact: "fl_sub_fp Val x y = fl_sub x y"
  by (simp add: fl_sub_fp_def fl_sub_def fl_add_fp_exact)

lemma py_truediv_fp_exact: "py_truediv_fp Val a b = py_truediv a b"
  by (simp add: py_truediv_fp_def py_truediv_def)

lemma temp_intensity_fp_exact: "temp_intensity_fp Val h q i j k = temp_intensity h q i j k"
  unfolding temp_intensity_fp_def temp_intensity_def py_truediv_fp_exact
    fl_add_fp_exact fl_mul_fp_exact fl_sub_fp_exact ..

lemma loop_k_fp_exact: "loop_k_fp Val h q i j ks l = loop_k h q i j ks l"
  by (induction ks arbitrary: l) (simp_all add: temp_intensity_fp_exact split: sum.splits)

lemma loop_j_fp_exact: "loop_j_fp Val h q i hw js l = loop_j h q i hw js l"
  by (induction js arbitrary: l) (simp_all add: loop_k_fp_exact split: sum.splits)

lemma loop_i_fp_exact: "loop_i_fp Val q b hw is h = loop_i q b hw is h"
  by (induction "is" arbitrary: h) (simp_all add: loop_j_fp_exact split: sum.splits)

lemma remove_fluo_fp_exact:
  "remove_fluo_spectra_lowest_point_fp Val s p w sm h = remove_fluo_spectra_lowest_point s p w sm h"
  unfolding remove_fluo_spectra_lowest_point_fp_def remove_fluo_spectra_lowest_point_def
    loop_i_fp_exact fl_sub_fp_exact ..






lemma length_background_fp [simp]: "length (background_fp rnd ys hw is bg) = length bg"
  unfolding background_fp_def by (induction "is" arbitrary: bg) auto

lemma length_bg_final_fp [simp]: "length (bg_final_fp rnd ys hw) = length ys"
  by (simp add: bg_final_fp_def)

lemma length_clean_of_fp [simp]: "length (clean_of_fp rnd ys hw) = length ys"
  by (simp add: clean_of_fp_def)











section \<open>Facts about the concrete spectra\<close>

lemma small_spectrum_facts:
  "shape small_spectrum = [3, 2]" "wf_ndarray small_spectrum"
  "intensities small_spectrum = [Val 1, Val 5, Val 3]"
  "wavenumbers small_spectrum = [Val 100, Val 200, Val 300]"
  by code_simp+


lemma ramp_spectrum_facts:
  "shape ramp_spectrum = [5, 2]" "wf_ndarray ramp_spectrum"
  "intensities ramp_spectrum = [Val 1, Val 3, Val 5, Val 7, Val 9]"
  by code_simp+

lemma small_heap:
  "0 < length [small_spectrum]" "wf_ndarray ([small_spectrum] ! 0)"
  "shape ([small_spectrum] ! 0) = [3, 2]"
  "\<forall>v\<in>set (intensities ([small_spectrum] ! 0)). is_finite v"
  by (simp_all add: small_spectrum_facts)


lemma ramp_heap:
  "0 < length [ramp_spectrum]" "wf_ndarray ([ramp_spectrum] ! 0)"
  "shape ([ramp_spectrum] ! 0) = [5, 2]"
  by (simp_all add: ramp_spectrum_facts)

lemma width_2: "py_int (PyInt 2) = Inr 2" "(2::int) \<le> 2" "even (2::int)" "(1::nat) = nat (2 div 2)"
  by simp_all

lemma width_4: "py_int (PyInt 4) = Inr 4" "(2::int) \<le> 4" "even (4::int)" "(2::nat) = nat (4 div 2)"
  by simp_all

lemma width_float: "py_int (PyFloat (Val (5 / 2))) = Inr 2"
  by code_simp

lemma spike_spectrum_facts:
  "wavenumbers spike_spectrum =
     [Val 0, Val 1, Val 2, Val 3, Val 4, Val 5, Val 6, Val 7, Val 8, Val 9, Val 10]"
  "intensities spike_spectrum =
     [Val 0, Val 0, Val 0, Val 0, Val 0, Val 10, Val 0, Val 0, Val 0, Val 0, Val 0]"
  by code_simp+

lemma spike_call:
  "returned (remove_fluo_spectra_lowest_point s 0 (PyInt 4) False [spike_spectrum]) =
     Inr spike_spectrum"
  "background_after [spike_spectrum]
     (remove_fluo_spectra_lowest_point s 0 (PyInt 4) False [spike_spectrum]) ! 5 = Val 0"
  by code_simp+

lemma spike_candidates: "candidates (intensities spike_spectrum) 5 2 = {Val 0}"
proof -
  have r: "{1..2::nat} = {1, 2}"
    by auto
  show ?thesis
    unfolding candidates_def r
    by (simp add: candidate_def spike_spectrum_facts fl_sub_def)
qed




section \<open>The properties\<close>

subsection \<open>C1: the background at an interior index is the minimum of the candidates\<close>




subsection \<open>C2: at the edges the subtraction is zero\<close>

text \<open>
  Claim C2. For finite intensities, smoothing off and an even window width \<open>w \<ge> 2\<close>,
  at every index \<open>i < N\<close> with \<open>i < half_width\<close> or \<open>i \<ge> N - half_width\<close> the
  background is the intensity at \<open>i\<close> and the returned intensity is zero.
\<close>

theorem edges_subtract_to_zero:
  assumes "p < length h" "wf_ndarray (h ! p)" "shape (h ! p) = [N, 2]"
    and "py_int int_width = Inr w" "2 \<le> w" "even w" "half_width = nat (w div 2)"
    and "\<forall>v\<in>set (intensities (h ! p)). is_finite v"
    and "i < N" "i < half_width \<or> N \<le> i + half_width"
  shows "\<exists>out.
           returned (remove_fluo_spectra_lowest_point s p int_width False h) = Inr out \<and>
           background_after h (remove_fluo_spectra_lowest_point s p int_width False h) ! i =
             intensities (h ! p) ! i \<and>
           intensities out ! i = Val 0"
proof -
  let ?ys = "intensities (h ! p)"
  let ?r = "remove_fluo_spectra_lowest_point s p int_width False h"
  have n: "length ?ys = N"
    using assms(3) by (rule length_intensities)
  obtain out where out: "returned ?r = Inr out"
    "intensities out = clean_of ?ys (int half_width)"
    using unsmoothed_result[OF assms(1,3-7), of s] by blast
  have bg: "background_after h ?r = bg_final ?ys (int half_width)"
    using assms(1,3-7) by (rule unsmoothed_call(2))
  have e: "bg_final ?ys (int half_width) ! i = ?ys ! i"
    using assms(9,10) n by (intro edge_background) auto
  have "is_finite (?ys ! i)"
    using assms(8,9) n by simp
  then have "intensities out ! i = Val 0"
    using assms(9) n by (simp add: out(2) clean_of_nth e fl_sub_self)
  then show ?thesis
    using out(1) bg e by simp
qed

theorem edges_subtract_to_zero_witness:
  "\<exists>out. returned (remove_fluo_spectra_lowest_point Inr 0 (PyInt 2) False [small_spectrum]) = Inr out \<and>
     background_after [small_spectrum]
       (remove_fluo_spectra_lowest_point Inr 0 (PyInt 2) False [small_spectrum]) ! 2 = Val 3 \<and>
     intensities out ! 2 = Val 0"
proof -
  have i: "(2::nat) < 3" "(2::nat) < 1 \<or> (3::nat) \<le> 2 + 1"
    by simp_all
  show ?thesis
    using edges_subtract_to_zero[OF small_heap(1-3) width_2 small_heap(4) i, of Inr]
    by (simp add: small_spectrum_facts)
qed

subsection \<open>C3: rows, columns and wavenumbers are kept\<close>

text \<open>
  Claim C3. For an \<open>N\<close> by 2 input and an even window width \<open>w \<ge> 2\<close>, whatever the
  smoothing setting and the smoother, a spectrum the call returns has shape \<open>(N, 2)\<close>
  and its wavenumber column is the input's, row by row. The call does return one with
  smoothing off, and with smoothing on whenever the smoother returns \<open>N\<close> values.
\<close>

theorem shape_and_wavenumbers_preserved:
  assumes "p < length h" "wf_ndarray (h ! p)" "shape (h ! p) = [N, 2]"
    and "py_int int_width = Inr w" "2 \<le> w" "even w"
  shows "(\<forall>out. returned (remove_fluo_spectra_lowest_point s p int_width sm h) = Inr out \<longrightarrow>
            shape out = [N, 2] \<and> wf_ndarray out \<and> length (wavenumbers out) = N \<and>
            (\<forall>r<N. wavenumbers out ! r = wavenumbers (h ! p) ! r)) \<and>
         (\<exists>out. returned (remove_fluo_spectra_lowest_point s p int_width False h) = Inr out) \<and>
         (\<forall>zs. s (intensities (h ! p)) = Inr zs \<and> length zs = N \<longrightarrow>
            (\<exists>out. returned (remove_fluo_spectra_lowest_point s p int_width True h) = Inr out))"
proof (intro conjI allI impI)
  fix out
  assume "returned (remove_fluo_spectra_lowest_point s p int_width sm h) = Inr out"
  then have "result_value s (h ! p) int_width sm = Inr out"
    using assms(1) by (simp add: remove_fluo_returned)
  then have *: "shape out = [N, 2] \<and> wf_ndarray out \<and> wavenumbers out = wavenumbers (h ! p)"
    using result_value_shape[of s "h ! p" int_width sm out] assms(3) by simp
  then show "shape out = [N, 2]" "wf_ndarray out" "length (wavenumbers out) = N"
    using assms(3) by (simp_all add: length_wavenumbers)
  fix r
  show "wavenumbers out ! r = wavenumbers (h ! p) ! r"
    using * by simp
next
  show "\<exists>out. returned (remove_fluo_spectra_lowest_point s p int_width False h) = Inr out"
    using unsmoothed_result[OF assms(1,3-6) refl, of s] by blast
next
  fix zs
  assume zs: "s (intensities (h ! p)) = Inr zs \<and> length zs = N"
  have "remove_fluo_spectra_lowest_point s p int_width True h =
        (Inr (length h + 5),
                h @ [array1 (column (h ! p) 1), array1 (column (h ! p) 1), array1 zs,
                     array1 (bg_final zs (w div 2)), array1 (clean_of zs (w div 2)),
                     stacked (column (h ! p) 0) (clean_of zs (w div 2))])"
    using assms zs valid_shape[OF assms(3)]
    by (subst remove_fluo_smoothed[where n = w and zs = zs])
       (auto simp: intensities_def simp del: One_nat_def)
  then show "\<exists>out. returned (remove_fluo_spectra_lowest_point s p int_width True h) = Inr out"
    by (simp add: returned_def)
qed

theorem shape_and_wavenumbers_preserved_witness:
  "\<exists>out. returned (remove_fluo_spectra_lowest_point Inr 0 (PyInt 2) True [small_spectrum]) = Inr out \<and>
     shape out = [3, 2] \<and> wavenumbers out ! 2 = Val 300"
proof -
  let ?r = "remove_fluo_spectra_lowest_point Inr 0 (PyInt 2) True [small_spectrum]"
  note t = shape_and_wavenumbers_preserved[OF small_heap(1-3) width_2(1-3), of Inr True]
  note t1 = t[THEN conjunct1, rule_format]
  note t3 = t[THEN conjunct2, THEN conjunct2, rule_format]
  have "Inr (intensities ([small_spectrum] ! 0)) = Inr (intensities ([small_spectrum] ! 0)) \<and>
        length (intensities ([small_spectrum] ! 0)) = 3"
    by (simp add: small_spectrum_facts)
  then have "\<exists>out. returned ?r = Inr out"
    by (rule t3)
  then obtain out where out: "returned ?r = Inr out" ..
  have "shape out = [3, 2]"
    using t1[OF out] by simp
  moreover have "wavenumbers out ! 2 = Val 300"
    using t1[OF out] by (simp add: small_spectrum_facts)
  ultimately show ?thesis
    using out by blast
qed

subsection \<open>C4: the window width is validated\<close>

text \<open>
  Claim C4. For an \<open>N\<close> by 2 input, window width 1 raises the "too small" error,
  3 the "odd" error, and 4 is accepted. For a window width that \<^verbatim>\<open>int\<close> turns into
  \<open>w\<close>, the call raises the "too small" error exactly when \<open>w < 2\<close> and the "odd"
  error exactly when \<open>w \<ge> 2\<close> is odd (the smoother, which is not part of the
  repository, is taken not to raise these two errors itself).
\<close>

theorem window_width_validation:
  assumes "p < length h" "shape (h ! p) = [N, 2]"
  shows "returned (remove_fluo_spectra_lowest_point s p (PyInt 1) sm h) =
           Inl InvalidParameter_too_small \<and>
         returned (remove_fluo_spectra_lowest_point s p (PyInt 3) sm h) =
           Inl InvalidParameter_odd \<and>
         (\<exists>out. returned (remove_fluo_spectra_lowest_point s p (PyInt 4) False h) = Inr out) \<and>
         (py_int int_width = Inr w \<and>
          (sm \<longrightarrow> s (intensities (h ! p)) \<noteq> Inl InvalidParameter_too_small \<and>
                  s (intensities (h ! p)) \<noteq> Inl InvalidParameter_odd) \<longrightarrow>
            (returned (remove_fluo_spectra_lowest_point s p int_width sm h) =
               Inl InvalidParameter_too_small \<longleftrightarrow> w < 2) \<and>
            (returned (remove_fluo_spectra_lowest_point s p int_width sm h) =
               Inl InvalidParameter_odd \<longleftrightarrow> 2 \<le> w \<and> odd w))"
proof (intro conjI impI)
  note sh = valid_shape[OF assms(2)]
  show "returned (remove_fluo_spectra_lowest_point s p (PyInt 1) sm h) =
          Inl InvalidParameter_too_small"
    using sh by (simp add: remove_fluo_too_small[where n = 1] returned_def del: One_nat_def)
  show "returned (remove_fluo_spectra_lowest_point s p (PyInt 3) sm h) =
          Inl InvalidParameter_odd"
    using sh by (simp add: remove_fluo_odd[where n = 3] returned_def del: One_nat_def)
  show "\<exists>out. returned (remove_fluo_spectra_lowest_point s p (PyInt 4) False h) = Inr out"
    using unsmoothed_result[OF assms, of "PyInt 4" 4 _ s] by auto
  assume a: "py_int int_width = Inr w \<and>
          (sm \<longrightarrow> s (intensities (h ! p)) \<noteq> Inl InvalidParameter_too_small \<and>
                  s (intensities (h ! p)) \<noteq> Inl InvalidParameter_odd)"
  let ?r = "returned (remove_fluo_spectra_lowest_point s p int_width sm h)"
  have r: "?r = result_value s (h ! p) int_width sm"
    using assms(1) by (rule remove_fluo_returned)
  have v: "?r \<noteq> Inl InvalidParameter_too_small \<and> ?r \<noteq> Inl InvalidParameter_odd"
    if "2 \<le> w" "even w"
    unfolding r using that a sh errors_distinct
    by (auto simp: result_value_def intensities_def split: sum.splits
        simp del: One_nat_def)
  have small: "?r = Inl InvalidParameter_too_small" if "w < 2"
    unfolding r using that a sh by (simp add: result_value_def del: One_nat_def)
  have odd: "?r = Inl InvalidParameter_odd" if "2 \<le> w" "odd w"
    unfolding r using that a sh by (simp add: result_value_def odd_iff_mod_2_eq_one del: One_nat_def)
  show "?r = Inl InvalidParameter_too_small \<longleftrightarrow> w < 2"
    using small odd v errors_distinct(3) by (metis linorder_not_less sum.inject(1))
  show "?r = Inl InvalidParameter_odd \<longleftrightarrow> 2 \<le> w \<and> odd w"
    using small odd v errors_distinct(3) by (metis linorder_not_less sum.inject(1))
qed

theorem window_width_validation_witness:
  "returned (remove_fluo_spectra_lowest_point Inr 0 (PyInt 1) True [small_spectrum]) =
     Inl InvalidParameter_too_small \<and>
   returned (remove_fluo_spectra_lowest_point Inr 0 (PyInt 3) True [small_spectrum]) =
     Inl InvalidParameter_odd \<and>
   (\<exists>out. returned (remove_fluo_spectra_lowest_point Inr 0 (PyInt 4) False [small_spectrum]) = Inr out) \<and>
   returned (remove_fluo_spectra_lowest_point Inr 0 (PyFloat (Val (5 / 2))) True [small_spectrum])
     \<noteq> Inl InvalidParameter_too_small \<and>
   returned (remove_fluo_spectra_lowest_point Inr 0 (PyFloat (Val (5 / 2))) True [small_spectrum])
     \<noteq> Inl InvalidParameter_odd"
proof -
  note t = window_width_validation[OF small_heap(1,3), of Inr True "PyFloat (Val (5 / 2))" 2]
  have "py_int (PyFloat (Val (5 / 2))) = Inr 2 \<and>
        (True \<longrightarrow> Inr (intensities ([small_spectrum] ! 0)) \<noteq> Inl InvalidParameter_too_small \<and>
                 Inr (intensities ([small_spectrum] ! 0)) \<noteq> Inl InvalidParameter_odd)"
    using width_float by simp
  then have "returned (remove_fluo_spectra_lowest_point Inr 0 (PyFloat (Val (5 / 2))) True
               [small_spectrum]) \<noteq> Inl InvalidParameter_too_small \<and>
             returned (remove_fluo_spectra_lowest_point Inr 0 (PyFloat (Val (5 / 2))) True
               [small_spectrum]) \<noteq> Inl InvalidParameter_odd"
    using t by simp
  then show ?thesis
    using t by blast
qed

subsection \<open>C5: validation fails before anything is computed\<close>

text \<open>
  Claim C5. An array that is not two-dimensional with two columns, such as a
  one-dimensional one or an \<open>N\<close> by 3 table, raises the shape error; a window width
  \<open>w < 2\<close>, or an odd one, raises its error. In each case the result is the same for
  every smoother and smoothing setting, and the store is returned as it was: nothing
  has been allocated, smoothed or written.
\<close>

theorem validation_fails_fast:
  "(ndim (h ! p) \<noteq> 2 \<or> shape (h ! p) ! 1 \<noteq> 2 \<longrightarrow>
      (\<forall>s int_width sm.
         remove_fluo_spectra_lowest_point s p int_width sm h = (Inl InvalidShape, h))) \<and>
   (shape (h ! p) = [N] \<or> shape (h ! p) = [N, 3] \<longrightarrow>
      (\<forall>s int_width sm.
         remove_fluo_spectra_lowest_point s p int_width sm h = (Inl InvalidShape, h))) \<and>
   (shape (h ! p) = [N, 2] \<and> py_int int_width = Inr w \<and> w < 2 \<longrightarrow>
      (\<forall>s sm. remove_fluo_spectra_lowest_point s p int_width sm h =
                (Inl InvalidParameter_too_small, h))) \<and>
   (shape (h ! p) = [N, 2] \<and> py_int int_width = Inr w \<and> 2 \<le> w \<and> odd w \<longrightarrow>
      (\<forall>s sm. remove_fluo_spectra_lowest_point s p int_width sm h =
                (Inl InvalidParameter_odd, h)))"
proof (intro conjI impI allI)
  fix s int_width sm
  assume "ndim (h ! p) \<noteq> 2 \<or> shape (h ! p) ! 1 \<noteq> 2"
  then show "remove_fluo_spectra_lowest_point s p int_width sm h = (Inl InvalidShape, h)"
    by (rule remove_fluo_invalid_shape)
next
  fix s int_width sm
  assume "shape (h ! p) = [N] \<or> shape (h ! p) = [N, 3]"
  then have "ndim (h ! p) \<noteq> 2 \<or> shape (h ! p) ! 1 \<noteq> 2"
    by (auto simp: ndim_def)
  then show "remove_fluo_spectra_lowest_point s p int_width sm h = (Inl InvalidShape, h)"
    by (rule remove_fluo_invalid_shape)
next
  fix s sm
  assume a: "shape (h ! p) = [N, 2] \<and> py_int int_width = Inr w \<and> w < 2"
  then show "remove_fluo_spectra_lowest_point s p int_width sm h =
             (Inl InvalidParameter_too_small, h)"
    using valid_shape[of "h ! p" N] by (intro remove_fluo_too_small[where n = w]) auto
next
  fix s sm
  assume a: "shape (h ! p) = [N, 2] \<and> py_int int_width = Inr w \<and> 2 \<le> w \<and> odd w"
  then show "remove_fluo_spectra_lowest_point s p int_width sm h = (Inl InvalidParameter_odd, h)"
    using valid_shape[of "h ! p" N]
    by (intro remove_fluo_odd[where n = w]) (auto simp: odd_iff_mod_2_eq_one)
qed

theorem validation_fails_fast_witness:
  "remove_fluo_spectra_lowest_point Inr 0 (PyInt 4) True [array1 [Val 1, Val 2, Val 3]] =
     (Inl InvalidShape, [array1 [Val 1, Val 2, Val 3]]) \<and>
   remove_fluo_spectra_lowest_point Inr 0 (PyInt 4) True [three_columns] =
     (Inl InvalidShape, [three_columns]) \<and>
   remove_fluo_spectra_lowest_point Inr 0 (PyInt 1) True [small_spectrum] =
     (Inl InvalidParameter_too_small, [small_spectrum]) \<and>
   remove_fluo_spectra_lowest_point Inr 0 (PyInt 3) True [small_spectrum] =
     (Inl InvalidParameter_odd, [small_spectrum])"
  using validation_fails_fast[of "[array1 [Val 1, Val 2, Val 3]]" 0 3 "PyInt 4" 4]
    validation_fails_fast[of "[three_columns]" 0 2 "PyInt 4" 4]
    validation_fails_fast[of "[small_spectrum]" 0 3 "PyInt 1" 1]
    validation_fails_fast[of "[small_spectrum]" 0 3 "PyInt 3" 3]
  by (simp add: small_spectrum_facts array1_def three_columns_def)

subsection \<open>C6: a linear ramp is its own background\<close>

text \<open>
  Claim C6. When the intensity at every index \<open>m\<close> is \<open>a m + b\<close>, with smoothing off
  and an even window width \<open>w \<ge> 2\<close>, at every interior index \<open>i\<close> every candidate
  equals the intensity at \<open>i\<close>, so does the background, and the returned intensity is
  zero.
\<close>

theorem linear_ramp_background:
  assumes "p < length h" "wf_ndarray (h ! p)" "shape (h ! p) = [N, 2]"
    and "py_int int_width = Inr w" "2 \<le> w" "even w" "half_width = nat (w div 2)"
    and "\<forall>m<N. intensities (h ! p) ! m = Val (a * of_nat m + b)"
    and "half_width \<le> i" "i + half_width < N"
  shows "\<exists>out.
           returned (remove_fluo_spectra_lowest_point s p int_width False h) = Inr out \<and>
           (\<forall>j\<in>{1..half_width}. \<forall>k\<in>{1..half_width}.
              candidate (intensities (h ! p)) i j k = intensities (h ! p) ! i) \<and>
           background_after h (remove_fluo_spectra_lowest_point s p int_width False h) ! i =
             intensities (h ! p) ! i \<and>
           intensities out ! i = Val 0"
proof -
  let ?ys = "intensities (h ! p)"
  let ?r = "remove_fluo_spectra_lowest_point s p int_width False h"
  have n: "length ?ys = N"
    using assms(3) by (rule length_intensities)
  obtain out where out: "returned ?r = Inr out"
    "intensities out = clean_of ?ys (int half_width)"
    using unsmoothed_result[OF assms(1,3-7), of s] by blast
  have bg: "background_after h ?r = bg_final ?ys (int half_width)"
    using assms(1,3-7) by (rule unsmoothed_call(2))
  have hw: "1 \<le> half_width"
    using assms(5,7) by simp
  have yi: "?ys ! i = Val (a * of_nat i + b)"
    using assms(8,10) by simp
  have c: "candidate ?ys i j k = ?ys ! i" if "j \<in> {1..half_width}" "k \<in> {1..half_width}" for j k
    using that assms(8,9,10) n by (intro candidate_ramp[where a = a and b = b]) auto
  obtain cs where cs: "bg_final ?ys (int half_width) ! i = fold keep_lower cs PInf"
    "cs \<noteq> []" "set cs = candidates ?ys i half_width"
    using interior_background[OF hw assms(9), of ?ys] assms(10) n by blast
  have "\<forall>c\<in>set cs. c = Val (a * of_nat i + b)"
    unfolding cs(3) candidates_def using c yi by auto
  then have b: "bg_final ?ys (int half_width) ! i = ?ys ! i"
    using fold_keep_lower_const[OF cs(2)] cs(1) yi by simp
  have "i < length ?ys"
    using assms(10) n by simp
  then have "intensities out ! i = Val 0"
    by (simp add: out(2) clean_of_nth b yi fl_sub_def)
  then show ?thesis
    using out(1) bg b c by auto
qed

theorem linear_ramp_background_witness:
  "\<exists>out. returned (remove_fluo_spectra_lowest_point Inr 0 (PyInt 4) False [ramp_spectrum]) = Inr out \<and>
     background_after [ramp_spectrum]
       (remove_fluo_spectra_lowest_point Inr 0 (PyInt 4) False [ramp_spectrum]) ! 2 = Val 5 \<and>
     intensities out ! 2 = Val 0"
proof -
  have "intensities ramp_spectrum = map (\<lambda>m. Val (2 * of_nat m + 1)) [0..<5]"
    by code_simp
  then have r: "\<forall>m<5. intensities ([ramp_spectrum] ! 0) ! m = Val (2 * of_nat m + 1)"
    by simp
  have i: "(2::nat) \<le> 2" "(2::nat) + 2 < 5"
    by simp_all
  obtain out where
    "returned (remove_fluo_spectra_lowest_point Inr 0 (PyInt 4) False [ramp_spectrum]) = Inr out"
    "background_after [ramp_spectrum]
       (remove_fluo_spectra_lowest_point Inr 0 (PyInt 4) False [ramp_spectrum]) ! 2 =
     intensities ([ramp_spectrum] ! 0) ! 2"
    "intensities out ! 2 = Val 0"
    using linear_ramp_background[OF ramp_heap width_4 r i, of Inr] by blast
  then show ?thesis
    by (simp add: ramp_spectrum_facts)
qed

subsection \<open>C7: a single spike survives\<close>

text \<open>
  Claim C7. For the intensities \<open>[0,0,0,0,0,10,0,0,0,0,0]\<close> with wavenumbers 0 to 10,
  window width 4 and smoothing off, every candidate at index 5 (offsets \<open>j\<close> and \<open>k\<close>
  in \<open>{1, 2}\<close>, neighbours at indices 3, 4, 6 and 7) is 0, the background at index 5
  is 0, and the call returns the wavenumbers unchanged with the intensities
  \<open>[0,0,0,0,0,10,0,0,0,0,0]\<close>: 10 at index 5 and 0 at every other index.
\<close>

theorem spike_survives:
  "\<exists>out. returned (remove_fluo_spectra_lowest_point s 0 (PyInt 4) False [spike_spectrum]) =
           Inr out \<and>
     wavenumbers out =
       [Val 0, Val 1, Val 2, Val 3, Val 4, Val 5, Val 6, Val 7, Val 8, Val 9, Val 10] \<and>
     intensities out =
       [Val 0, Val 0, Val 0, Val 0, Val 0, Val 10, Val 0, Val 0, Val 0, Val 0, Val 0] \<and>
     candidates (intensities spike_spectrum) 5 2 = {Val 0} \<and>
     background_after [spike_spectrum]
       (remove_fluo_spectra_lowest_point s 0 (PyInt 4) False [spike_spectrum]) ! 5 = Val 0"
  using spike_call[of s] spike_spectrum_facts spike_candidates by simp

theorem spike_survives_witness:
  "\<exists>out. returned (remove_fluo_spectra_lowest_point Inr 0 (PyInt 4) False [spike_spectrum]) = Inr out \<and>
     intensities out ! 5 = Val 10 \<and> intensities out ! 4 = Val 0"
proof -
  obtain out where
    "returned (remove_fluo_spectra_lowest_point Inr 0 (PyInt 4) False [spike_spectrum]) = Inr out"
    "intensities out =
       [Val 0, Val 0, Val 0, Val 0, Val 0, Val 10, Val 0, Val 0, Val 0, Val 0, Val 0]"
    using spike_survives[of Inr] by blast
  then show ?thesis
    by simp
qed

subsection \<open>C8: NaN and infinities are not errors, and show in the output\<close>



subsection \<open>C9: a call is a function of its input and leaves the store alone\<close>

text \<open>
  Claim C9. Two calls on identical input arrays, wherever these are in whatever stores,
  with the same window width, smoothing setting and smoother, return the same error or
  the same spectrum. Every array that was in the store before a call is the same after
  it, the input array in particular.
\<close>

theorem deterministic_and_pure:
  assumes "p1 < length h1" "p2 < length h2" "h1 ! p1 = h2 ! p2"
  shows "returned (remove_fluo_spectra_lowest_point s p1 int_width sm h1) =
         returned (remove_fluo_spectra_lowest_point s p2 int_width sm h2) \<and>
         take (length h1) (snd (remove_fluo_spectra_lowest_point s p1 int_width sm h1)) = h1 \<and>
         take (length h2) (snd (remove_fluo_spectra_lowest_point s p2 int_width sm h2)) = h2 \<and>
         snd (remove_fluo_spectra_lowest_point s p1 int_width sm h1) ! p1 = h1 ! p1 \<and>
         snd (remove_fluo_spectra_lowest_point s p2 int_width sm h2) ! p2 = h2 ! p2"
proof -
  have same: "snd (remove_fluo_spectra_lowest_point s p int_width sm h) ! p = h ! p"
    if "p < length h" for p h
  proof -
    have "take (length h) (snd (remove_fluo_spectra_lowest_point s p int_width sm h)) ! p = h ! p"
      using that by (simp only: remove_fluo_frame)
    then show ?thesis
      using that by simp
  qed
  show ?thesis
    using assms by (simp add: remove_fluo_returned remove_fluo_frame same)
qed

theorem deterministic_and_pure_witness:
  "returned (remove_fluo_spectra_lowest_point Inr 0 (PyInt 2) True [small_spectrum]) =
   returned (remove_fluo_spectra_lowest_point Inr 1 (PyInt 2) True [spike_spectrum, small_spectrum]) \<and>
   take 1 (snd (remove_fluo_spectra_lowest_point Inr 0 (PyInt 2) True [small_spectrum])) =
     [small_spectrum] \<and>
   snd (remove_fluo_spectra_lowest_point Inr 1 (PyInt 2) True [spike_spectrum, small_spectrum]) ! 1 =
     small_spectrum"
  using deterministic_and_pure[of 0 "[small_spectrum]" 1 "[spike_spectrum, small_spectrum]"
      Inr "PyInt 2" True]
  by simp

subsection \<open>C10: every access of the loops is in bounds\<close>




end
